theory Spec2Isabelle
  imports Main "HOL-Library.Word"
begin

section \<open>Values of the host language\<close>

text \<open>
  Header values, paths and log messages are Python \<open>str\<close> objects whose characters fit
  in eight bits (WSGI hands headers over as latin-1 text); they are modelled as
  \<open>string\<close>.  A response body is a \<open>bytes\<close> object, a list of octets.  The text
  that results from decoding a body may hold any Unicode code point, so it is a list of
  code points.  Timestamps are integers (microseconds on the wall clock).
\<close>

type_synonym byte = "8 word"
type_synonym bytes = "byte list"
type_synonym ustr = "nat list"
type_synonym time = int

text \<open>
  Exceptions deriving from \<open>Exception\<close>: the class and the message that \<open>str(e)\<close>
  (the \<open>%s\<close> of a log call) gives.
\<close>

datatype exn_kind = ValueError | AttributeError | OtherException

datatype exn = Exn exn_kind string

fun exn_str :: "exn \<Rightarrow> string" where
  "exn_str (Exn k m) = m"

datatype level = ERROR

type_synonym logline = "level \<times> string"

section \<open>Records, the queue and the storage sink\<close>

record user =
  u_pk :: nat
  u_username :: string
  u_is_authenticated :: bool

text \<open>The dictionary that \<open>log_request\<close> puts on the queue, with its fifteen keys.\<close>

record item =
  scheme :: string
  host :: string
  path :: string
  query :: string
  http_method :: "string option"
  ip_address :: "string option"
  user_agent :: string
  user :: "user option"
  username :: string
  start_at :: time
  end_at :: time
  status_code :: int
  error :: ustr
  request_size :: int
  response_size :: int

text \<open>
  \<open>Request(**item)\<close> builds an unsaved model instance from the dictionary; the columns
  the database assigns (\<open>id\<close>, \<open>created_at\<close>) are not part of it.
\<close>

datatype Request = Request (fields: item)

text \<open>
  The table behind \<open>Request.objects\<close>: its rows, and the batches that
  \<open>bulk_create\<close> has inserted, one entry per completed call.
\<close>

record store =
  rows :: "Request list"
  bulk_inserts :: "Request list list"

text \<open>
  \<open>bulk_create\<close> may raise (a database error, or a patched manager as in the tests).
  When and what it raises is a parameter: \<open>fault db batch = Some e\<close> means that the call
  on this table with this batch raises \<open>e\<close> and inserts nothing.
\<close>

type_synonym fault = "store \<Rightarrow> Request list \<Rightarrow> exn option"

definition bulk_create :: "fault \<Rightarrow> Request list \<Rightarrow> store \<Rightarrow> exn + store" where
  "bulk_create fault batch db =
     (case fault db batch of
        Some e \<Rightarrow> Inl e
      | None \<Rightarrow> Inr (db\<lparr>rows := rows db @ batch,
                        bulk_inserts := bulk_inserts db @ [batch]\<rparr>))"

text \<open>The logger in its worker-less configuration (\<open>use_thread=False\<close>).\<close>

record RequestLogger =
  queue :: "item list"
  batch_size :: int
  flush_interval :: int
  last_flush :: time

definition RequestLogger_init :: "int \<Rightarrow> int \<Rightarrow> time \<Rightarrow> RequestLogger" where
  "RequestLogger_init bs fi now =
     \<lparr>queue = [], batch_size = bs, flush_interval = fi, last_flush = now\<rparr>"

definition log_request :: "item \<Rightarrow> RequestLogger \<Rightarrow> RequestLogger" where
  "log_request it lg = lg\<lparr>queue := queue lg @ [it]\<rparr>"

section \<open>The synchronous drain\<close>

text \<open>
  The \<open>while not self.queue.empty()\<close> loop of \<open>process_batch\<close>, by recursion on the
  queue.  A raising \<open>bulk_create\<close> ends the loop with the exception, the items not yet
  taken from the queue and the table; the batch in hand is a local variable and is lost.
  Otherwise the loop ends with the batch not yet inserted and the table.
\<close>

fun drain_loop ::
  "fault \<Rightarrow> int \<Rightarrow> item list \<Rightarrow> Request list \<Rightarrow> store
     \<Rightarrow> (exn \<times> item list \<times> store) + (Request list \<times> store)" where
  "drain_loop f B [] batch db = Inr (batch, db)"
| "drain_loop f B (it # q) batch db =
     (let batch' = batch @ [Request it]
      in if int (length batch') \<ge> B
         then (case bulk_create f batch' db of
                 Inl e \<Rightarrow> Inl (e, q, db)
               | Inr db' \<Rightarrow> drain_loop f B q [] db')
         else drain_loop f B q batch' db)"

definition process_batch ::
  "fault \<Rightarrow> RequestLogger \<Rightarrow> store \<Rightarrow> (exn + unit) \<times> RequestLogger \<times> store" where
  "process_batch f lg db =
     (case drain_loop f (batch_size lg) (queue lg) [] db of
        Inl (e, q, db') \<Rightarrow> (Inl e, lg\<lparr>queue := q\<rparr>, db')
      | Inr (batch, db') \<Rightarrow>
          (if batch \<noteq> []
           then (case bulk_create f batch db' of
                   Inl e \<Rightarrow> (Inl e, lg\<lparr>queue := []\<rparr>, db')
                 | Inr db'' \<Rightarrow> (Inr (), lg\<lparr>queue := []\<rparr>, db''))
           else (Inr (), lg\<lparr>queue := []\<rparr>, db')))"

section \<open>The flush of the background worker\<close>

text \<open>
  \<open>_flush_batch(self, batch)\<close> mutates the logger and the list it is given; the model
  returns the logger, the list, the table and the log after the call.  \<open>now\<close> is what
  \<open>timezone.now()\<close> reads on the success path.
\<close>

definition flush_batch ::
  "fault \<Rightarrow> time \<Rightarrow> RequestLogger \<Rightarrow> Request list \<Rightarrow> store \<Rightarrow> logline list
     \<Rightarrow> RequestLogger \<times> Request list \<times> store \<times> logline list" where
  "flush_batch f now lg batch db log =
     (case bulk_create f batch db of
        Inr db' \<Rightarrow> (lg\<lparr>last_flush := now\<rparr>, [], db', log)
      | Inl e \<Rightarrow> (lg, [], db,
                  log @ [(ERROR, ''Error bulk creating records: '' @ exn_str e)]))"

text \<open>The batches the drain is specified to insert: consecutive runs of \<open>n\<close> records.\<close>

function chunks :: "nat \<Rightarrow> 'a list \<Rightarrow> 'a list list" where
  "chunks n xs = (if xs = [] \<or> n = 0 then [] else take n xs # chunks n (drop n xs))"
  by pat_completeness auto
termination
  by (relation "measure (\<lambda>(n, xs). length xs)") auto

declare chunks.simps [simp del]

text \<open>Fixtures after the repository's tests: a logger with \<open>batch_size=2\<close> and no thread.\<close>

definition test_item :: "string \<Rightarrow> item" where
  "test_item p =
     \<lparr>scheme = ''http'', host = ''test.com'', path = p, query = [], http_method = Some ''GET'',
      ip_address = Some ''127.0.0.1'', user_agent = [], user = None, username = [],
      start_at = 0, end_at = 0, status_code = 200, error = [], request_size = 0,
      response_size = 100\<rparr>"

definition test_logger :: "item list \<Rightarrow> RequestLogger" where
  "test_logger q = (RequestLogger_init 2 60 0)\<lparr>queue := q\<rparr>"

definition empty_store :: store where
  "empty_store = \<lparr>rows = [], bulk_inserts = []\<rparr>"

definition no_fault :: fault where
  "no_fault = (\<lambda>db batch. None)"

definition db_error :: fault where
  "db_error = (\<lambda>db batch. Some (Exn OtherException ''DB error''))"

section \<open>Library functions of the host language\<close>

text \<open>\<open>str.split(sep)\<close> with a one-character separator.\<close>

fun split_acc :: "char \<Rightarrow> string \<Rightarrow> string \<Rightarrow> string list" where
  "split_acc sep cur [] = [cur]"
| "split_acc sep cur (c # cs) =
     (if c = sep then cur # split_acc sep [] cs else split_acc sep (cur @ [c]) cs)"

definition split_str :: "char \<Rightarrow> string \<Rightarrow> string list" where
  "split_str sep s = split_acc sep [] s"

text \<open>
  The characters that \<open>str.isspace\<close> accepts among the first 256 code points, and
  \<open>str.strip()\<close>.
\<close>

definition is_space :: "char \<Rightarrow> bool" where
  "is_space c =
     (let n = (of_char c :: nat)
      in (9 \<le> n \<and> n \<le> 13) \<or> (28 \<le> n \<and> n \<le> 32) \<or> n = 133 \<or> n = 160)"

definition strip :: "string \<Rightarrow> string" where
  "strip s = rev (dropWhile is_space (rev (dropWhile is_space s)))"

text \<open>
  \<open>repr\<close> of a \<open>str\<close> and of a \<open>bytes\<close> object: the quote is a single quote unless
  the text holds a single quote and no double quote; the quote and the backslash are
  escaped, tab, newline and carriage return have their letters, every other character that
  is not printable is written \<open>\xhh\<close>.
\<close>

definition hex_digit :: "nat \<Rightarrow> char" where
  "hex_digit n = ''0123456789abcdef'' ! (n mod 16)"

definition escape_char :: "(nat \<Rightarrow> bool) \<Rightarrow> char \<Rightarrow> char \<Rightarrow> string" where
  "escape_char printable q c =
     (if c = q \<or> c = CHR 0x5C then [CHR 0x5C, c]
      else if c = CHR 0x09 then [CHR 0x5C, CHR ''t'']
      else if c = CHR 0x0A then [CHR 0x5C, CHR ''n'']
      else if c = CHR 0x0D then [CHR 0x5C, CHR ''r'']
      else if printable (of_char c) then [c]
      else [CHR 0x5C, CHR ''x'', hex_digit (of_char c div 16), hex_digit (of_char c)])"

definition quoted :: "(nat \<Rightarrow> bool) \<Rightarrow> string \<Rightarrow> string" where
  "quoted printable s =
     (let q = (if CHR 0x27 \<in> set s \<and> CHR 0x22 \<notin> set s then CHR 0x22 else CHR 0x27)
      in [q] @ concat (map (escape_char printable q) s) @ [q])"

definition str_repr :: "string \<Rightarrow> string" where
  "str_repr s = quoted (\<lambda>n. (32 \<le> n \<and> n < 127) \<or> (161 \<le> n \<and> n \<noteq> 173)) s"

definition bytes_str :: "bytes \<Rightarrow> string" where
  "bytes_str b = CHR ''b'' # quoted (\<lambda>n. 32 \<le> n \<and> n < 127) (map (\<lambda>w. char_of (unat w)) b)"

text \<open>
  \<open>int(s)\<close> on a \<open>str\<close>, as CPython converts it.  Leading whitespace is skipped,
  then one sign, then comes a run of decimal digits that single underscores may group
  (no underscore first, last or next to another); trailing whitespace is skipped and
  nothing may follow.  The whitespace skipped here is tab to carriage return, the space,
  and the two characters above 127 that are spaces (\<open>0x85\<close>, \<open>0xA0\<close>); the separators
  \<open>0x1C\<close> to \<open>0x1F\<close>, which \<open>str.strip\<close> removes, are not skipped.  A run of more
  digits than the interpreter's limit (4300 by default) raises \<open>ValueError\<close> with a
  message of its own, checked after the grouping and before what follows the run.  Every
  other failure raises \<open>ValueError\<close> with the \<open>repr\<close> of the argument cut to 200
  characters.
\<close>

definition is_int_space :: "char \<Rightarrow> bool" where
  "is_int_space c =
     (let n = (of_char c :: nat) in (9 \<le> n \<and> n \<le> 13) \<or> n = 32 \<or> n = 133 \<or> n = 160)"

definition is_digit :: "char \<Rightarrow> bool" where
  "is_digit c = (let n = (of_char c :: nat) in 48 \<le> n \<and> n \<le> 57)"

definition is_digit_or_underscore :: "char \<Rightarrow> bool" where
  "is_digit_or_underscore c = (is_digit c \<or> c = CHR ''_'')"

text \<open>
  Grouping of a run of digits and underscores: the flag tells whether the character
  before was a digit; an underscore needs a digit before it, and the run must end in a
  digit.
\<close>

fun grouped :: "bool \<Rightarrow> string \<Rightarrow> bool" where
  "grouped p [] = p"
| "grouped p (c # cs) = (if c = CHR ''_'' then p \<and> grouped False cs else grouped True cs)"

definition digits_value :: "string \<Rightarrow> nat" where
  "digits_value ds = foldl (\<lambda>a c. 10 * a + (of_char c - 48)) 0 ds"

definition digit_char :: "nat \<Rightarrow> char" where
  "digit_char d = char_of (48 + d)"

function show_nat :: "nat \<Rightarrow> string" where
  "show_nat n = (if n < 10 then [digit_char n] else show_nat (n div 10) @ [digit_char (n mod 10)])"
  by pat_completeness auto
termination
  by (relation "measure id") auto

declare show_nat.simps [simp del]

definition int_max_str_digits :: nat where
  "int_max_str_digits = 4300"

definition invalid_literal :: "string \<Rightarrow> exn" where
  "invalid_literal s =
     Exn ValueError (''invalid literal for int() with base 10: '' @ take 200 (str_repr s))"

definition digits_limit_error :: "nat \<Rightarrow> exn" where
  "digits_limit_error n =
     Exn ValueError
       (''Exceeds the limit ('' @ show_nat int_max_str_digits
        @ '' digits) for integer string conversion: value has '' @ show_nat n
        @ '' digits; use sys.set_int_max_str_digits() to increase the limit'')"

definition skip_sign :: "string \<Rightarrow> bool \<times> string" where
  "skip_sign t =
     (case t of
        [] \<Rightarrow> (False, [])
      | c # r \<Rightarrow>
          (if c = CHR ''-'' then (True, r)
           else if c = CHR ''+'' then (False, r)
           else (False, t)))"

definition py_int :: "string \<Rightarrow> exn + int" where
  "py_int s =
     (case skip_sign (dropWhile is_int_space s) of
        (neg, u) \<Rightarrow>
          (let run = takeWhile is_digit_or_underscore u;
               ds = filter is_digit run
           in if grouped False run
              then (if int_max_str_digits < length ds
                    then Inl (digits_limit_error (length ds))
                    else if dropWhile is_int_space (dropWhile is_digit_or_underscore u) = []
                    then Inr (if neg then - int (digits_value ds) else int (digits_value ds))
                    else Inl (invalid_literal s))
              else Inl (invalid_literal s)))"

text \<open>
  \<open>bytes.decode("utf-8")\<close>, strict: \<open>None\<close> stands for \<open>UnicodeDecodeError\<close>.  The
  second octet of a sequence is bounded by its lead octet, which excludes overlong forms,
  surrogates and code points above \<open>0x10FFFF\<close>.
\<close>

definition is_cont :: "nat \<Rightarrow> bool" where
  "is_cont n = (128 \<le> n \<and> n < 192)"

definition second_lo :: "nat \<Rightarrow> nat" where
  "second_lo b = (if b = 224 then 160 else if b = 240 then 144 else 128)"

definition second_hi :: "nat \<Rightarrow> nat" where
  "second_hi b = (if b = 237 then 160 else if b = 244 then 144 else 192)"

fun utf8_dec :: "nat list \<Rightarrow> nat list option" where
  "utf8_dec [] = Some []"
| "utf8_dec (b # bs) =
     (if b < 128 then map_option ((#) b) (utf8_dec bs)
      else if 194 \<le> b \<and> b < 224 then
        (case bs of
           c1 # r \<Rightarrow>
             (if is_cont c1
              then map_option ((#) ((b - 192) * 64 + (c1 - 128))) (utf8_dec r)
              else None)
         | _ \<Rightarrow> None)
      else if 224 \<le> b \<and> b < 240 then
        (case bs of
           c1 # c2 # r \<Rightarrow>
             (if second_lo b \<le> c1 \<and> c1 < second_hi b \<and> is_cont c2
              then map_option ((#) ((b - 224) * 4096 + (c1 - 128) * 64 + (c2 - 128)))
                     (utf8_dec r)
              else None)
         | _ \<Rightarrow> None)
      else if 240 \<le> b \<and> b < 245 then
        (case bs of
           c1 # c2 # c3 # r \<Rightarrow>
             (if second_lo b \<le> c1 \<and> c1 < second_hi b \<and> is_cont c2 \<and> is_cont c3
              then map_option
                     ((#) ((b - 240) * 262144 + (c1 - 128) * 4096 + (c2 - 128) * 64
                           + (c3 - 128)))
                     (utf8_dec r)
              else None)
         | _ \<Rightarrow> None)
      else None)"

definition utf8_decode :: "bytes \<Rightarrow> ustr option" where
  "utf8_decode b = utf8_dec (map unat b)"

definition ustr_of :: "string \<Rightarrow> ustr" where
  "ustr_of s = map of_char s"

section \<open>The middleware\<close>

text \<open>
  What the middleware reads of a request.  \<open>req_user\<close> is \<open>None\<close> when the request has
  no \<open>user\<close> attribute, \<open>Some None\<close> when the attribute is \<open>None\<close>, and otherwise the
  user object (an anonymous user is an object that is not authenticated).
\<close>

record HttpRequest =
  req_scheme :: string
  req_host :: string
  req_path :: string
  req_query :: string
  req_method :: "string option"
  META :: "string \<rightharpoonup> string"
  body :: bytes
  req_user :: "user option option"

text \<open>
  What it reads of a response.  Reading \<open>content\<close> gives the body, or raises
  \<open>AttributeError\<close> with a message (a streaming response); \<open>hasattr\<close> is true in the
  first case and false in the second.
\<close>

record HttpResponse =
  resp_status_code :: int
  content :: "string + bytes"

definition get_client_ip :: "HttpRequest \<Rightarrow> string option" where
  "get_client_ip request =
     (case META request ''HTTP_X_FORWARDED_FOR'' of
        Some x_forwarded_for \<Rightarrow>
          (if x_forwarded_for \<noteq> []
           then Some (hd (split_str CHR '','' x_forwarded_for))
           else META request ''REMOTE_ADDR'')
      | None \<Rightarrow> META request ''REMOTE_ADDR'')"

definition calculate_sizes :: "HttpRequest \<Rightarrow> HttpResponse \<Rightarrow> exn + (int \<times> int)" where
  "calculate_sizes request response =
     (let request_size_r =
            (case META request ''CONTENT_LENGTH'' of
               Some content_length \<Rightarrow>
                 (if content_length \<noteq> [] then py_int content_length
                  else Inr (int (length (body request))))
             | None \<Rightarrow> Inr (int (length (body request))));
          response_size_v = (case content response of
                               Inr b \<Rightarrow> int (length b)
                             | Inl m \<Rightarrow> 0)
      in case request_size_r of
           Inl e \<Rightarrow> Inl e
         | Inr request_size_v \<Rightarrow> Inr (request_size_v, response_size_v))"

definition get_error_content :: "HttpResponse \<Rightarrow> exn + ustr" where
  "get_error_content response =
     (if resp_status_code response \<ge> 400
      then (case content response of
              Inl m \<Rightarrow> Inl (Exn AttributeError m)
            | Inr b \<Rightarrow>
                (case utf8_decode b of
                   Some t \<Rightarrow> Inr t
                 | None \<Rightarrow> Inr (ustr_of (bytes_str b))))
      else Inr [])"

definition get_user_info :: "HttpRequest \<Rightarrow> user option \<times> string" where
  "get_user_info request =
     (case req_user request of
        Some (Some u) \<Rightarrow> (if u_is_authenticated u then (Some u, u_username u) else (None, []))
      | _ \<Rightarrow> (None, []))"

text \<open>
  The middleware logs through the module's \<open>request_logger.log_request\<close>, which the tests
  patch; the operation is a parameter, and \<open>enqueue\<close> is the one of the module.
\<close>

type_synonym log_op = "item \<Rightarrow> RequestLogger \<Rightarrow> exn + RequestLogger"

definition enqueue :: log_op where
  "enqueue it lg = Inr (log_request it lg)"

text \<open>The body of the \<open>try\<close> block of \<open>__call__\<close>.\<close>

definition call_body ::
  "log_op \<Rightarrow> time \<Rightarrow> time \<Rightarrow> HttpRequest \<Rightarrow> HttpResponse \<Rightarrow> RequestLogger
     \<Rightarrow> exn + RequestLogger" where
  "call_body log_op t0 t1 request response lg =
     (case calculate_sizes request response of
        Inl e \<Rightarrow> Inl e
      | Inr (request_size_v, response_size_v) \<Rightarrow>
          (case get_error_content response of
             Inl e \<Rightarrow> Inl e
           | Inr error_v \<Rightarrow>
               (case get_user_info request of
                  (user_v, username_v) \<Rightarrow>
                    log_op
                      \<lparr>scheme = req_scheme request,
                       host = req_host request,
                       path = req_path request,
                       query = req_query request,
                       http_method = req_method request,
                       ip_address = get_client_ip request,
                       user_agent = (case META request ''HTTP_USER_AGENT'' of
                                       None \<Rightarrow> [] | Some a \<Rightarrow> a),
                       user = user_v,
                       username = username_v,
                       start_at = t0,
                       end_at = t1,
                       status_code = resp_status_code response,
                       error = error_v,
                       request_size = request_size_v,
                       response_size = response_size_v\<rparr>
                      lg)))"

text \<open>
  \<open>__call__\<close>: \<open>t0\<close> and \<open>t1\<close> are the two readings of the clock; the state is the
  module's logger and the log.  The handler is called outside the \<open>try\<close> block.
\<close>

definition call ::
  "(HttpRequest \<Rightarrow> exn + HttpResponse) \<Rightarrow> log_op \<Rightarrow> time \<Rightarrow> time \<Rightarrow> HttpRequest
     \<Rightarrow> RequestLogger \<times> logline list
     \<Rightarrow> (exn + HttpResponse) \<times> RequestLogger \<times> logline list" where
  "call get_response log_op t0 t1 request st =
     (case get_response request of
        Inl e \<Rightarrow> (Inl e, st)
      | Inr response \<Rightarrow>
          (case call_body log_op t0 t1 request response (fst st) of
             Inr lg' \<Rightarrow> (Inr response, lg', snd st)
           | Inl e \<Rightarrow>
               (Inr response, fst st,
                snd st @ [(ERROR, ''Error in RequestLoggingMiddleware: '' @ exn_str e)])))"

text \<open>The derivation of the address as the specification words it, with the entry trimmed.\<close>

definition spec_client_ip :: "HttpRequest \<Rightarrow> string option" where
  "spec_client_ip request =
     (case META request ''HTTP_X_FORWARDED_FOR'' of
        Some x \<Rightarrow> Some (strip (hd (split_str CHR '','' x)))
      | None \<Rightarrow> META request ''REMOTE_ADDR'')"

text \<open>Fixtures: the request of the tests' \<open>RequestFactory().get("/test/")\<close>, and responses.\<close>

definition test_request :: "(string \<rightharpoonup> string) \<Rightarrow> HttpRequest" where
  "test_request meta =
     \<lparr>req_scheme = ''http'', req_host = ''testserver'', req_path = ''/test/'',
      req_query = [], req_method = Some ''GET'', META = meta, body = [],
      req_user = Some None\<rparr>"

definition test_response :: "int \<Rightarrow> bytes \<Rightarrow> HttpResponse" where
  "test_response st b = \<lparr>resp_status_code = st, content = Inr b\<rparr>"

definition streaming_response :: "int \<Rightarrow> HttpResponse" where
  "streaming_response st =
     \<lparr>resp_status_code = st,
      content = Inl ''This StreamingHttpResponse instance has no content attribute.''\<rparr>"

section \<open>Properties of the batches\<close>

lemma chunks_Nil: "chunks n [] = []"
  by (simp add: chunks.simps)

lemma chunks_short: "xs \<noteq> [] \<Longrightarrow> length xs \<le> n \<Longrightarrow> chunks n xs = [xs]"
  by (subst chunks.simps) (cases xs; auto simp: chunks_Nil)

lemma chunks_append_full:
  "0 < n \<Longrightarrow> length b = n \<Longrightarrow> chunks n (b @ ys) = b # chunks n ys"
  by (subst chunks.simps) auto

lemma chunks_step:
  "0 < n \<Longrightarrow> xs \<noteq> [] \<Longrightarrow> chunks n xs = take n xs # chunks n (drop n xs)"
  by (subst chunks.simps) simp

lemma concat_chunks: "0 < n \<Longrightarrow> concat (chunks n xs) = xs"
proof (induction n xs rule: chunks.induct)
  case (1 n xs)
  show ?case
  proof (cases "xs = []")
    case True
    then show ?thesis by (simp add: chunks_Nil)
  next
    case False
    with 1 show ?thesis by (simp add: chunks_step)
  qed
qed

lemma ceil_small: "0 < m \<Longrightarrow> m \<le> n \<Longrightarrow> (m + n - 1) div n = (1::nat)"
proof -
  assume a: "0 < m" "m \<le> n"
  then obtain k where k: "m = Suc k" by (cases m) auto
  with a have "k < n" by simp
  then have "(k + n) div n = 1" by (simp add: div_add_self2)
  with k show ?thesis by simp
qed

lemma ceil_step: "n < m \<Longrightarrow> 0 < n \<Longrightarrow> Suc ((m - n + n - 1) div n) = (m + n - 1) div (n::nat)"
proof -
  assume a: "n < m" "0 < n"
  then obtain k where k: "m = Suc k" by (cases m) auto
  have "(k + n) div n = Suc (k div n)" using a by (simp add: div_add_self2)
  with k a show ?thesis by simp
qed

lemma length_chunks: "0 < n \<Longrightarrow> length (chunks n xs) = (length xs + n - 1) div n"
proof (induction n xs rule: chunks.induct)
  case (1 n xs)
  show ?case
  proof (cases "xs = []")
    case True
    then show ?thesis using 1(2) by (simp add: chunks_Nil)
  next
    case False
    show ?thesis
    proof (cases "length xs \<le> n")
      case True
      with False have "(length xs + n - 1) div n = 1" by (intro ceil_small) auto
      with True False show ?thesis by (simp add: chunks_short)
    next
      case gt: False
      have "length (chunks n xs) = Suc (length (chunks n (drop n xs)))"
        using False 1(2) by (simp add: chunks_step)
      also have "\<dots> = Suc ((length xs - n + n - 1) div n)"
        using 1 False by simp
      also have "\<dots> = (length xs + n - 1) div n"
        using gt 1(2) by (simp only: ceil_step)
      finally show ?thesis .
    qed
  qed
qed


lemma chunks_lengths:
  "0 < n \<Longrightarrow> i < length (chunks n xs) - 1 \<Longrightarrow> length (chunks n xs ! i) = n"
proof (induction n xs arbitrary: i rule: chunks.induct)
  case (1 n xs)
  from 1(3) have ne: "xs \<noteq> []" by (auto simp: chunks_Nil)
  have st: "chunks n xs = take n xs # chunks n (drop n xs)"
    using ne 1(2) by (rule chunks_step[rotated])
  from 1(3) st have rest: "chunks n (drop n xs) \<noteq> []" by auto
  then have "drop n xs \<noteq> []" by (auto simp: chunks_Nil)
  then have len: "n < length xs" by simp
  show ?case
  proof (cases i)
    case 0
    with st len show ?thesis by simp
  next
    case (Suc j)
    with 1(3) st have "j < length (chunks n (drop n xs)) - 1" by simp
    with 1(1)[of j] ne 1(2) have "length (chunks n (drop n xs) ! j) = n" by simp
    with st Suc show ?thesis by simp
  qed
qed

lemma chunks_last:
  "0 < n \<Longrightarrow> xs \<noteq> [] \<Longrightarrow>
   length (last (chunks n xs)) = (if length xs mod n = 0 then n else length xs mod n)"
proof (induction n xs rule: chunks.induct)
  case (1 n xs)
  have st: "chunks n xs = take n xs # chunks n (drop n xs)"
    using 1(3) 1(2) by (rule chunks_step[rotated])
  show ?case
  proof (cases "length xs \<le> n")
    case True
    with 1(3) have "chunks n xs = [xs]" by (simp add: chunks_short)
    moreover have "length xs mod n = (if length xs = n then 0 else length xs)"
      using True by auto
    ultimately show ?thesis using 1(3) by auto
  next
    case False
    then have d: "drop n xs \<noteq> []" by simp
    then have "chunks n (drop n xs) \<noteq> []" using 1(2) by (simp add: chunks_step)
    with st have "last (chunks n xs) = last (chunks n (drop n xs))" by simp
    moreover have "length (drop n xs) mod n = length xs mod n"
      using False by (simp add: le_mod_geq)
    ultimately show ?thesis using 1(1) 1(2) 1(3) d by simp
  qed
qed

lemma store_eqI:
  "rows a = rows b \<Longrightarrow> bulk_inserts a = bulk_inserts b \<Longrightarrow> a = (b::store)"
  by simp

lemma bulk_create_ok:
  "\<forall>d b. f d b = None \<Longrightarrow>
   bulk_create f batch db = Inr (db\<lparr>rows := rows db @ batch, bulk_inserts := bulk_inserts db @ [batch]\<rparr>)"
  by (simp add: bulk_create_def)

lemma drain_loop_ok:
  assumes nf: "\<forall>d b. f d b = None" and B: "0 < B"
  shows "length batch < nat B \<Longrightarrow>
    \<exists>r db'. drain_loop f B q batch db = Inr (r, db') \<and> length r < nat B
       \<and> rows db' @ r = rows db @ batch @ map Request q
       \<and> bulk_inserts db' @ (if r = [] then [] else [r])
           = bulk_inserts db @ chunks (nat B) (batch @ map Request q)"
proof (induction q arbitrary: batch db)
  case Nil
  then show ?case by (auto simp: chunks_Nil chunks_short)
next
  case (Cons it q)
  let ?b = "batch @ [Request it]"
  show ?case
  proof (cases "B \<le> int (length ?b)")
    case True
    with Cons.prems have len: "length ?b = nat B" by simp
    let ?db = "db\<lparr>rows := rows db @ ?b, bulk_inserts := bulk_inserts db @ [?b]\<rparr>"
    from B have "length ([]::Request list) < nat B" by simp
    from Cons.IH[OF this, of ?db] obtain r db' where
      r: "drain_loop f B q [] ?db = Inr (r, db')" "length r < nat B"
         "rows db' @ r = rows ?db @ [] @ map Request q"
         "bulk_inserts db' @ (if r = [] then [] else [r])
            = bulk_inserts ?db @ chunks (nat B) ([] @ map Request q)"
      by blast
    have ch: "chunks (nat B) (?b @ map Request q) = ?b # chunks (nat B) (map Request q)"
      using B len by (intro chunks_append_full) auto
    have "drain_loop f B (it # q) batch db = Inr (r, db')"
      using True r(1) bulk_create_ok[OF nf, of ?b db] by (simp add: Let_def)
    moreover have "rows db' @ r = rows db @ batch @ map Request (it # q)"
      using r(3) by simp
    moreover have "bulk_inserts db' @ (if r = [] then [] else [r])
           = bulk_inserts db @ chunks (nat B) (batch @ map Request (it # q))"
      using r(4) ch by simp
    ultimately show ?thesis using r(2) by blast
  next
    case False
    then have len: "length ?b < nat B" by simp
    from Cons.IH[OF len, of db] obtain r db' where
      r: "drain_loop f B q ?b db = Inr (r, db')" "length r < nat B"
         "rows db' @ r = rows db @ ?b @ map Request q"
         "bulk_inserts db' @ (if r = [] then [] else [r])
            = bulk_inserts db @ chunks (nat B) (?b @ map Request q)"
      by blast
    have "drain_loop f B (it # q) batch db = Inr (r, db')"
      using False r(1) by (simp add: Let_def)
    with r show ?thesis by auto
  qed
qed

lemma process_batch_ok:
  assumes nf: "\<forall>d b. f d b = None" and B: "0 < batch_size lg"
  shows "process_batch f lg db =
     (Inr (), lg\<lparr>queue := []\<rparr>,
      db\<lparr>rows := rows db @ map Request (queue lg),
         bulk_inserts := bulk_inserts db @ chunks (nat (batch_size lg)) (map Request (queue lg))\<rparr>)"
proof -
  from B have "length ([]::Request list) < nat (batch_size lg)" by simp
  from drain_loop_ok[OF nf B this, of "queue lg" db] obtain r db' where
    r: "drain_loop f (batch_size lg) (queue lg) [] db = Inr (r, db')"
       "rows db' @ r = rows db @ map Request (queue lg)"
       "bulk_inserts db' @ (if r = [] then [] else [r])
          = bulk_inserts db @ chunks (nat (batch_size lg)) (map Request (queue lg))"
    by auto
  show ?thesis
  proof (cases "r = []")
    case True
    with r show ?thesis 
      by (auto simp: process_batch_def intro!: store_eqI)
  next
    case False
    with r show ?thesis
      by (auto simp: process_batch_def bulk_create_ok[OF nf] intro!: store_eqI)
  qed
qed

section \<open>Claims about the batching logger\<close>

text \<open>
  C1.  With a batch size \<open>B > 0\<close> and a sink that accepts every call, the drain of a
  queue of \<open>N\<close> items returns normally with the queue empty; the table has gained the
  \<open>N\<close> records in queue order; the bulk inserts made are \<open>\<lceil>N/B\<rceil>\<close> in number, their
  concatenation is the queue, every one but the last holds \<open>B\<close> records and the last
  holds \<open>N mod B\<close> records, or \<open>B\<close> when \<open>B\<close> divides \<open>N\<close>.
\<close>

theorem process_batch_persists_in_batches:
  assumes "0 < batch_size lg" and "\<forall>d b. f d b = None"
  shows "let N = length (queue lg); B = nat (batch_size lg);
             cs = chunks B (map Request (queue lg))
         in process_batch f lg db =
              (Inr (), lg\<lparr>queue := []\<rparr>,
               db\<lparr>rows := rows db @ map Request (queue lg),
                  bulk_inserts := bulk_inserts db @ cs\<rparr>)
          \<and> concat cs = map Request (queue lg)
          \<and> length cs = (N + B - 1) div B
          \<and> (\<forall>i. i < length cs - 1 \<longrightarrow> length (cs ! i) = B)
          \<and> (cs \<noteq> [] \<longrightarrow> length (last cs) = (if N mod B = 0 then B else N mod B))"
proof -
  let ?B = "nat (batch_size lg)"
  let ?xs = "map Request (queue lg)"
  from assms(1) have B: "0 < ?B" by simp
  have 1: "process_batch f lg db =
              (Inr (), lg\<lparr>queue := []\<rparr>,
               db\<lparr>rows := rows db @ ?xs, bulk_inserts := bulk_inserts db @ chunks ?B ?xs\<rparr>)"
    using assms by (rule process_batch_ok[rotated])
  have 2: "concat (chunks ?B ?xs) = ?xs"
    using B by (rule concat_chunks)
  have 3: "length (chunks ?B ?xs) = (length (queue lg) + ?B - 1) div ?B"
    using length_chunks[OF B, of ?xs] by simp
  have 4: "\<forall>i. i < length (chunks ?B ?xs) - 1 \<longrightarrow> length (chunks ?B ?xs ! i) = ?B"
    using chunks_lengths[OF B] by blast
  have 5: "chunks ?B ?xs \<noteq> [] \<longrightarrow> length (last (chunks ?B ?xs))
             = (if length (queue lg) mod ?B = 0 then ?B else length (queue lg) mod ?B)"
  proof
    assume "chunks ?B ?xs \<noteq> []"
    then have "?xs \<noteq> []" by (auto simp: chunks_Nil)
    from chunks_last[OF B this] show "length (last (chunks ?B ?xs))
             = (if length (queue lg) mod ?B = 0 then ?B else length (queue lg) mod ?B)"
      by simp
  qed
  from 1 2 3 4 5 show ?thesis unfolding Let_def by blast
qed

theorem process_batch_persists_in_batches_witness:
  "0 < batch_size (test_logger [test_item ''/a'', test_item ''/b'', test_item ''/c''])
   \<and> process_batch no_fault
        (test_logger [test_item ''/a'', test_item ''/b'', test_item ''/c'']) empty_store =
       (Inr (), test_logger [],
        \<lparr>rows = [Request (test_item ''/a''), Request (test_item ''/b''),
                 Request (test_item ''/c'')],
         bulk_inserts = [[Request (test_item ''/a''), Request (test_item ''/b'')],
                         [Request (test_item ''/c'')]]\<rparr>)"
  using process_batch_persists_in_batches
    [of "test_logger [test_item ''/a'', test_item ''/b'', test_item ''/c'']" no_fault empty_store]
  by (simp add: test_logger_def RequestLogger_init_def no_fault_def empty_store_def
        chunks.simps Let_def)

text \<open>
  C2.  After \<open>_flush_batch\<close> the batch is empty, whether the bulk insert succeeded or
  raised.  When it raised, the records of the batch are gone: the table is as it was and
  the queue is as it was, so nothing was stored and nothing was put back.
\<close>

theorem flush_batch_clears_batch:
  "(case flush_batch f now lg batch db log of
      (lg', batch', db', log') \<Rightarrow>
        batch' = [] \<and> queue lg' = queue lg
        \<and> (\<forall>e. bulk_create f batch db = Inl e \<longrightarrow> db' = db))"
  by (simp add: flush_batch_def split: sum.split)

theorem flush_batch_clears_batch_witness:
  "bulk_create db_error [Request (test_item ''/'')] empty_store
     = Inl (Exn OtherException ''DB error'')
   \<and> flush_batch db_error 7 (test_logger [test_item ''/q'']) [Request (test_item ''/'')]
       empty_store [] =
     (test_logger [test_item ''/q''], [], empty_store,
      [(ERROR, ''Error bulk creating records: DB error'')])"
  using flush_batch_clears_batch
    [where f = db_error and now = 7 and lg = "test_logger [test_item ''/q'']"
       and batch = "[Request (test_item ''/'')]" and db = empty_store and log = "[]"]
  by (simp add: flush_batch_def bulk_create_def db_error_def)

text \<open>
  C9.  A flush whose bulk insert raises leaves the logger as it was, its last-flush
  timestamp included; a flush whose bulk insert succeeds changes the last-flush timestamp
  to the current time and nothing else.  Batch size, flush interval and queue are the
  same after any flush.
\<close>

theorem flush_batch_frame:
  "(case flush_batch f now lg batch db log of
      (lg', rest) \<Rightarrow>
        (\<forall>e. bulk_create f batch db = Inl e \<longrightarrow> lg' = lg)
        \<and> (\<forall>db1. bulk_create f batch db = Inr db1 \<longrightarrow> lg' = lg\<lparr>last_flush := now\<rparr>)
        \<and> batch_size lg' = batch_size lg
        \<and> flush_interval lg' = flush_interval lg
        \<and> queue lg' = queue lg)"
  by (simp add: flush_batch_def split: sum.split)

theorem flush_batch_frame_witness:
  "(bulk_create db_error [Request (test_item ''/'')] empty_store
      = Inl (Exn OtherException ''DB error'')
    \<and> last_flush (fst (flush_batch db_error 7 (test_logger [test_item ''/q''])
          [Request (test_item ''/'')] empty_store [])) = 0)
   \<and> (bulk_create no_fault [Request (test_item ''/'')] empty_store
      = Inr \<lparr>rows = [Request (test_item ''/'')], bulk_inserts = [[Request (test_item ''/'')]]\<rparr>
    \<and> fst (flush_batch no_fault 7 (test_logger [test_item ''/q''])
          [Request (test_item ''/'')] empty_store [])
        = (test_logger [test_item ''/q''])\<lparr>last_flush := 7\<rparr>)"
  using flush_batch_frame
    [where f = db_error and now = 7 and lg = "test_logger [test_item ''/q'']"
       and batch = "[Request (test_item ''/'')]" and db = empty_store and log = "[]"]
    flush_batch_frame
    [where f = no_fault and now = 7 and lg = "test_logger [test_item ''/q'']"
       and batch = "[Request (test_item ''/'')]" and db = empty_store and log = "[]"]
  by (simp add: flush_batch_def bulk_create_def db_error_def no_fault_def empty_store_def
        test_logger_def RequestLogger_init_def)

text \<open>
  C8.  The drain calls the bulk insert outside any handler.  With a batch size of two, three
  queued items and a sink that raises, the call ends with the sink's exception; the first
  two items are neither stored nor queued any more, and the third is still in the queue.
\<close>

theorem process_batch_fault_escapes:
  "process_batch db_error
     (test_logger [test_item ''/a'', test_item ''/b'', test_item ''/c'']) empty_store =
   (Inl (Exn OtherException ''DB error''), test_logger [test_item ''/c''], empty_store)"
  by (simp add: process_batch_def bulk_create_def db_error_def test_logger_def
        RequestLogger_init_def)

section \<open>Properties of the library functions\<close>

lemma hd_split_acc: "hd (split_acc sep cur s) = cur @ takeWhile (\<lambda>c. c \<noteq> sep) s"
  by (induction s arbitrary: cur) auto

lemma split_acc_nonempty: "split_acc sep cur s \<noteq> []"
  by (induction s arbitrary: cur) auto

lemma concat_split_acc:
  "split_acc sep cur s = p # ps \<Longrightarrow> cur @ s = p @ concat (map ((#) sep) ps)"
proof (induction s arbitrary: cur p ps)
  case Nil
  then show ?case by simp
next
  case (Cons c cs)
  show ?case
  proof (cases "c = sep")
    case True
    with Cons.prems have p: "p = cur" and ps: "ps = split_acc sep [] cs" by simp_all
    obtain q qs where q: "split_acc sep [] cs = q # qs"
      using split_acc_nonempty[of sep "[]" cs] by (cases "split_acc sep [] cs") auto
    from Cons.IH[OF q] have "cs = q @ concat (map ((#) sep) qs)" by simp
    with p ps q True show ?thesis by simp
  next
    case False
    with Cons.prems have "split_acc sep (cur @ [c]) cs = p # ps" by simp
    from Cons.IH[OF this] show ?thesis by simp
  qed
qed

lemma utf8_dec_ascii: "\<forall>x\<in>set bs. x < 128 \<Longrightarrow> utf8_dec bs = Some bs"
  by (induction bs) auto

lemma py_int_raises_ValueError: "py_int s = Inl e \<Longrightarrow> \<exists>m. e = Exn ValueError m"
  by (auto simp: py_int_def invalid_literal_def digits_limit_error_def Let_def
      split: prod.splits if_splits)

lemma is_digit_digit_char: "d < 10 \<Longrightarrow> is_digit (digit_char d)"
  by (simp add: is_digit_def digit_char_def Let_def)

lemma digit_char_not_space: "d < 10 \<Longrightarrow> \<not> is_int_space (digit_char d)"
  by (simp add: is_int_space_def digit_char_def Let_def)

lemma of_char_digit_char: "d < 10 \<Longrightarrow> of_char (digit_char d) = (48 + d :: nat)"
  by (simp add: digit_char_def)

lemma digit_char_not_sign:
  assumes "d < 10"
  shows "digit_char d \<noteq> CHR ''-'' \<and> digit_char d \<noteq> CHR ''+'' \<and> digit_char d \<noteq> CHR ''_''"
proof -
  have "of_char (digit_char d) \<noteq> (45 :: nat)" "of_char (digit_char d) \<noteq> (43 :: nat)"
    "of_char (digit_char d) \<noteq> (95 :: nat)"
    using assms by (simp_all add: of_char_digit_char)
  then show ?thesis by auto
qed

lemma grouped_digits:
  "\<forall>d\<in>set ds. d < 10 \<Longrightarrow> grouped p (map digit_char ds) = (if ds = [] then p else True)"
  by (induction ds arbitrary: p) (auto simp: digit_char_not_sign)

lemma digits_value_digits:
  "\<forall>d\<in>set ds. d < 10 \<Longrightarrow>
   foldl (\<lambda>a c. 10 * a + (of_char c - 48)) acc (map digit_char ds)
     = foldl (\<lambda>a d. 10 * a + d) acc ds"
  by (induction ds arbitrary: acc) (auto simp: digit_char_def)

lemma py_int_digits:
  assumes "ds \<noteq> []" and "\<forall>d\<in>set ds. d < 10" and "length ds \<le> int_max_str_digits"
  shows "py_int (map digit_char ds) = Inr (int (foldl (\<lambda>a d. 10 * a + d) 0 ds))"
proof -
  let ?s = "map digit_char ds"
  from assms obtain d ds' where ds: "ds = d # ds'" and d: "d < 10" by (cases ds) auto
  have all: "\<forall>c\<in>set ?s. is_digit c" using assms(2) by (auto simp: is_digit_digit_char)
  have 1: "dropWhile is_int_space ?s = ?s"
    using d by (simp add: ds digit_char_not_space)
  have 2: "skip_sign ?s = (False, ?s)"
    using d by (simp add: ds skip_sign_def digit_char_not_sign)
  have 3: "takeWhile is_digit_or_underscore ?s = ?s"
    using all by (intro takeWhile_eq_all_conv[THEN iffD2]) (auto simp: is_digit_or_underscore_def)
  have 4: "dropWhile is_digit_or_underscore ?s = []"
    using all by (auto simp: is_digit_or_underscore_def)
  have 5: "filter is_digit ?s = ?s" using all by (intro filter_True) auto
  have 6: "grouped False ?s" using grouped_digits[OF assms(2), of False] assms(1) by simp
  show ?thesis
    unfolding py_int_def 1 2
    using 6 assms(3) digits_value_digits[OF assms(2), of 0]
    by (simp add: 3 4 5 Let_def digits_value_def)
qed

lemma py_int_separator_prefix:
  "py_int [CHR 0x1C, CHR ''4'', CHR ''2''] = Inl (invalid_literal [CHR 0x1C, CHR ''4'', CHR ''2''])"
  by (simp add: py_int_def is_int_space_def skip_sign_def is_digit_or_underscore_def is_digit_def
      Let_def)

section \<open>Claims about the middleware\<close>

text \<open>
  C3, as the code has it.  When the forwarded-for header is present and not empty, the
  address is the first comma-separated entry of its value exactly as written, that is the
  text before the first comma, with no whitespace removed.  When the header is absent or
  empty, the address is the connection's remote address, and \<open>None\<close> when that is
  absent too.  For the header \<open>10.0.0.1, 192.168.1.1\<close> the address is \<open>10.0.0.1\<close>.
\<close>

theorem get_client_ip_first_entry:
  "(\<forall>x. META request ''HTTP_X_FORWARDED_FOR'' = Some x \<and> x \<noteq> [] \<longrightarrow>
        split_str CHR '','' x \<noteq> []
      \<and> get_client_ip request = Some (hd (split_str CHR '','' x))
      \<and> hd (split_str CHR '','' x) = takeWhile (\<lambda>c. c \<noteq> CHR '','') x)
   \<and> (META request ''HTTP_X_FORWARDED_FOR'' = None
       \<or> META request ''HTTP_X_FORWARDED_FOR'' = Some [] \<longrightarrow>
      get_client_ip request = META request ''REMOTE_ADDR'')"
  by (auto simp: get_client_ip_def split_str_def hd_split_acc split_acc_nonempty)

theorem get_client_ip_first_entry_witness:
  "get_client_ip (test_request [''HTTP_X_FORWARDED_FOR'' \<mapsto> ''10.0.0.1, 192.168.1.1''])
     = Some ''10.0.0.1''
   \<and> get_client_ip (test_request [''REMOTE_ADDR'' \<mapsto> ''192.168.1.1'']) = Some ''192.168.1.1''
   \<and> get_client_ip (test_request Map.empty) = None"
  using get_client_ip_first_entry
      [of "test_request [''HTTP_X_FORWARDED_FOR'' \<mapsto> ''10.0.0.1, 192.168.1.1'']"]
    get_client_ip_first_entry [of "test_request [''REMOTE_ADDR'' \<mapsto> ''192.168.1.1'']"]
    get_client_ip_first_entry [of "test_request Map.empty"]
  by (simp add: test_request_def)

text \<open>
  C3, as stated, fails: for the header \<open>10.0.0.1 , 192.168.1.1\<close> the code keeps the
  space that ends the first entry, and the trimmed entry is another string.
\<close>

theorem get_client_ip_not_trimmed:
  "get_client_ip (test_request [''HTTP_X_FORWARDED_FOR'' \<mapsto> ''10.0.0.1 , 192.168.1.1''])
     = Some ''10.0.0.1 ''
   \<and> spec_client_ip (test_request [''HTTP_X_FORWARDED_FOR'' \<mapsto> ''10.0.0.1 , 192.168.1.1''])
     = Some ''10.0.0.1''
   \<and> get_client_ip (test_request [''HTTP_X_FORWARDED_FOR'' \<mapsto> ''10.0.0.1 , 192.168.1.1''])
     \<noteq> spec_client_ip (test_request [''HTTP_X_FORWARDED_FOR'' \<mapsto> ''10.0.0.1 , 192.168.1.1''])"
  by (simp add: get_client_ip_def spec_client_ip_def test_request_def split_str_def
        strip_def is_space_def)

text \<open>
  C10.  A forwarded-for header whose value is the empty string is treated as absent: the
  address is the connection's remote address.
\<close>

theorem get_client_ip_empty_header:
  "META request ''HTTP_X_FORWARDED_FOR'' = Some [] \<Longrightarrow>
   get_client_ip request = META request ''REMOTE_ADDR''"
  by (simp add: get_client_ip_def)

theorem get_client_ip_empty_header_witness:
  "META (test_request [''HTTP_X_FORWARDED_FOR'' \<mapsto> [], ''REMOTE_ADDR'' \<mapsto> ''192.168.1.1''])
      ''HTTP_X_FORWARDED_FOR'' = Some []
   \<and> get_client_ip
        (test_request [''HTTP_X_FORWARDED_FOR'' \<mapsto> [], ''REMOTE_ADDR'' \<mapsto> ''192.168.1.1''])
      = Some ''192.168.1.1''"
  using get_client_ip_empty_header
      [of "test_request [''HTTP_X_FORWARDED_FOR'' \<mapsto> [], ''REMOTE_ADDR'' \<mapsto> ''192.168.1.1'']"]
  by (simp add: test_request_def)

text \<open>
  C4, as the code has it.  When the content-length header is present, not empty and
  parseable as an integer (\<open>int\<close> accepts it), the request size is that integer.  When
  it is present, not empty and not parseable, the derivation raises the \<open>ValueError\<close> of
  \<open>int\<close> and gives no size.  When it is absent or empty, the request size is the number
  of bytes of the body.
\<close>

theorem calculate_sizes_request_size:
  "(\<forall>s n. META request ''CONTENT_LENGTH'' = Some s \<and> s \<noteq> [] \<and> py_int s = Inr n \<longrightarrow>
        (\<exists>rs. calculate_sizes request response = Inr (n, rs)))
   \<and> (\<forall>s e. META request ''CONTENT_LENGTH'' = Some s \<and> s \<noteq> [] \<and> py_int s = Inl e \<longrightarrow>
        calculate_sizes request response = Inl e \<and> (\<exists>m. e = Exn ValueError m))
   \<and> (META request ''CONTENT_LENGTH'' = None \<or> META request ''CONTENT_LENGTH'' = Some [] \<longrightarrow>
        (\<exists>rs. calculate_sizes request response = Inr (int (length (body request)), rs)))"
proof (intro conjI allI impI)
  fix s n
  assume "META request ''CONTENT_LENGTH'' = Some s \<and> s \<noteq> [] \<and> py_int s = Inr n"
  then show "\<exists>rs. calculate_sizes request response = Inr (n, rs)"
    by (simp add: calculate_sizes_def Let_def)
next
  fix s e
  assume "META request ''CONTENT_LENGTH'' = Some s \<and> s \<noteq> [] \<and> py_int s = Inl e"
  then show "calculate_sizes request response = Inl e"
    by (simp add: calculate_sizes_def Let_def)
next
  fix s e
  assume "META request ''CONTENT_LENGTH'' = Some s \<and> s \<noteq> [] \<and> py_int s = Inl e"
  then show "\<exists>m. e = Exn ValueError m"
    by (blast dest: py_int_raises_ValueError)
next
  assume "META request ''CONTENT_LENGTH'' = None \<or> META request ''CONTENT_LENGTH'' = Some []"
  then show "\<exists>rs. calculate_sizes request response = Inr (int (length (body request)), rs)"
    by (auto simp: calculate_sizes_def Let_def)
qed

theorem calculate_sizes_request_size_witness:
  "calculate_sizes (test_request [''CONTENT_LENGTH'' \<mapsto> ''42'']) (test_response 200 [])
     = Inr (42, 0)
   \<and> calculate_sizes ((test_request Map.empty)\<lparr>body := [1, 2, 3]\<rparr>) (test_response 200 [])
       = Inr (3, 0)
   \<and> calculate_sizes (test_request [''CONTENT_LENGTH'' \<mapsto> ''4x'']) (test_response 200 [])
       = Inl (invalid_literal ''4x'')
   \<and> calculate_sizes (test_request [''CONTENT_LENGTH'' \<mapsto> [CHR 0x1C, CHR ''4'', CHR ''2'']])
         (test_response 200 [])
       = Inl (invalid_literal [CHR 0x1C, CHR ''4'', CHR ''2''])"
  using calculate_sizes_request_size
      [of "test_request [''CONTENT_LENGTH'' \<mapsto> ''42'']" "test_response 200 []"]
    calculate_sizes_request_size
      [of "(test_request Map.empty)\<lparr>body := [1, 2, 3]\<rparr>" "test_response 200 []"]
    calculate_sizes_request_size
      [of "test_request [''CONTENT_LENGTH'' \<mapsto> ''4x'']" "test_response 200 []"]
    calculate_sizes_request_size
      [of "test_request [''CONTENT_LENGTH'' \<mapsto> [CHR 0x1C, CHR ''4'', CHR ''2'']]"
          "test_response 200 []"]
  by (simp add: test_request_def test_response_def calculate_sizes_def py_int_def
        is_int_space_def skip_sign_def is_digit_or_underscore_def is_digit_def
        digits_value_def int_max_str_digits_def Let_def)

text \<open>
  C4, as stated, fails: with the content-length header \<open>abc\<close> and a body of two bytes,
  the derivation raises instead of giving the size 2.
\<close>

theorem calculate_sizes_unparseable_raises:
  "py_int ''abc''
     = Inl (Exn ValueError
             (''invalid literal for int() with base 10: '' @ [CHR 0x27] @ ''abc'' @ [CHR 0x27]))
   \<and> calculate_sizes ((test_request [''CONTENT_LENGTH'' \<mapsto> ''abc''])\<lparr>body := [1, 2]\<rparr>)
        (test_response 200 [])
     = Inl (Exn ValueError
             (''invalid literal for int() with base 10: '' @ [CHR 0x27] @ ''abc'' @ [CHR 0x27]))
   \<and> calculate_sizes ((test_request [''CONTENT_LENGTH'' \<mapsto> ''abc''])\<lparr>body := [1, 2]\<rparr>)
        (test_response 200 [])
     \<noteq> Inr (2, 0)"
  by (simp add: calculate_sizes_def py_int_def is_int_space_def skip_sign_def
        is_digit_or_underscore_def is_digit_def invalid_literal_def test_request_def
        test_response_def str_repr_def quoted_def escape_char_def Let_def)

text \<open>
  C5.  When the handler raises, \<open>__call__\<close> ends with the same exception, and the
  logger (its queue included) and the log are as they were.
\<close>

theorem call_reraises_handler_error:
  "get_response request = Inl e \<Longrightarrow>
   call get_response log_op t0 t1 request st = (Inl e, st)"
  by (simp add: call_def)

theorem call_reraises_handler_error_witness:
  "call (\<lambda>r. Inl (Exn OtherException ''view failed'')) enqueue 1 2 (test_request Map.empty)
     (test_logger [test_item ''/a''], [])
   = (Inl (Exn OtherException ''view failed''), test_logger [test_item ''/a''], [])"
  using call_reraises_handler_error
      [of "\<lambda>r. Inl (Exn OtherException ''view failed'')" "test_request Map.empty"
          "Exn OtherException ''view failed''" enqueue 1 2 "(test_logger [test_item ''/a''], [])"]
  by simp

text \<open>
  C6.  When the handler returns a response, \<open>__call__\<close> returns that response.  When
  the block that derives and enqueues the record raises, the logger is unchanged and one
  line is logged at error severity, \<open>Error in RequestLoggingMiddleware: \<close> followed
  by the exception's message.  The block raises when the size derivation raises, when the
  error-content derivation raises, and when the enqueue operation raises.
\<close>

theorem call_returns_response_on_logging_failure:
  assumes "get_response request = Inr response"
  shows "fst (call get_response log_op t0 t1 request st) = Inr response
    \<and> (\<forall>e. call_body log_op t0 t1 request response (fst st) = Inl e \<longrightarrow>
          snd (call get_response log_op t0 t1 request st) =
            (fst st,
             snd st @ [(ERROR, ''Error in RequestLoggingMiddleware: '' @ exn_str e)]))
    \<and> (\<forall>e. calculate_sizes request response = Inl e \<longrightarrow>
          call_body log_op t0 t1 request response (fst st) = Inl e)
    \<and> (\<forall>e. (\<exists>sz. calculate_sizes request response = Inr sz)
            \<and> get_error_content response = Inl e \<longrightarrow>
          call_body log_op t0 t1 request response (fst st) = Inl e)
    \<and> (\<forall>e. (\<exists>sz. calculate_sizes request response = Inr sz)
            \<and> (\<exists>t. get_error_content response = Inr t)
            \<and> (\<forall>it. log_op it (fst st) = Inl e) \<longrightarrow>
          call_body log_op t0 t1 request response (fst st) = Inl e)"
proof (intro conjI allI impI)
  show "fst (call get_response log_op t0 t1 request st) = Inr response"
    using assms by (simp add: call_def split: sum.split)
next
  fix e
  assume "call_body log_op t0 t1 request response (fst st) = Inl e"
  with assms show "snd (call get_response log_op t0 t1 request st) =
      (fst st, snd st @ [(ERROR, ''Error in RequestLoggingMiddleware: '' @ exn_str e)])"
    by (simp add: call_def)
next
  fix e
  assume "calculate_sizes request response = Inl e"
  then show "call_body log_op t0 t1 request response (fst st) = Inl e"
    by (simp add: call_body_def)
next
  fix e
  assume "(\<exists>sz. calculate_sizes request response = Inr sz)
            \<and> get_error_content response = Inl e"
  then show "call_body log_op t0 t1 request response (fst st) = Inl e"
    by (auto simp: call_body_def)
next
  fix e
  assume "(\<exists>sz. calculate_sizes request response = Inr sz)
            \<and> (\<exists>t. get_error_content response = Inr t)
            \<and> (\<forall>it. log_op it (fst st) = Inl e)"
  then show "call_body log_op t0 t1 request response (fst st) = Inl e"
    by (auto simp: call_body_def split: prod.split)
qed

theorem call_returns_response_on_logging_failure_witness:
  "call (\<lambda>r. Inr (test_response 200 [])) (\<lambda>it lg. Inl (Exn OtherException ''Logging error''))
       1 2 (test_request Map.empty) (test_logger [], [])
     = (Inr (test_response 200 []), test_logger [],
        [(ERROR, ''Error in RequestLoggingMiddleware: Logging error'')])
   \<and> call (\<lambda>r. Inr (streaming_response 404)) enqueue 1 2 (test_request Map.empty)
         (test_logger [], [])
     = (Inr (streaming_response 404), test_logger [],
        [(ERROR, ''Error in RequestLoggingMiddleware: This StreamingHttpResponse instance has no content attribute.'')])
   \<and> call (\<lambda>r. Inr (test_response 200 [])) enqueue 1 2
         (test_request [''CONTENT_LENGTH'' \<mapsto> ''abc'']) (test_logger [], [])
     = (Inr (test_response 200 []), test_logger [],
        [(ERROR, ''Error in RequestLoggingMiddleware: invalid literal for int() with base 10: ''
                 @ [CHR 0x27] @ ''abc'' @ [CHR 0x27])])"
  using call_returns_response_on_logging_failure
      [of "\<lambda>r. Inr (test_response 200 [])" "test_request Map.empty" "test_response 200 []"
          "\<lambda>it lg. Inl (Exn OtherException ''Logging error'')" 1 2 "(test_logger [], [])"]
    call_returns_response_on_logging_failure
      [of "\<lambda>r. Inr (streaming_response 404)" "test_request Map.empty" "streaming_response 404"
          enqueue 1 2 "(test_logger [], [])"]
    call_returns_response_on_logging_failure
      [of "\<lambda>r. Inr (test_response 200 [])" "test_request [''CONTENT_LENGTH'' \<mapsto> ''abc'']"
          "test_response 200 []" enqueue 1 2 "(test_logger [], [])"]
  by (simp add: call_def call_body_def calculate_sizes_def get_error_content_def
        test_request_def test_response_def streaming_response_def py_int_def
        is_int_space_def skip_sign_def is_digit_or_underscore_def is_digit_def
        invalid_literal_def str_repr_def quoted_def
        escape_char_def Let_def utf8_decode_def get_user_info_def)




end
